theory Spec2Isabelle
  imports Main "HOL-Library.Sublist" "HOL-Library.Word"
begin

section \<open>The world the script runs in\<close>

text \<open>
  \<^verbatim>\<open>encrypt-excel.js\<close> is a command-line script over three collaborators that are not part
  of the repository: the file system (\<^verbatim>\<open>fs\<close>), the path utilities (\<^verbatim>\<open>path\<close>) and the
  spreadsheet codec (\<^verbatim>\<open>xlsx-populate\<close>), plus SHA-256 (\<^verbatim>\<open>crypto\<close>).  The file system is
  the state that is threaded through every function; the pure collaborators are the fields
  of an environment record that every function takes as a parameter.
\<close>

type_synonym path = string
type_synonym bytes = "8 word list"

text \<open>A path names nothing, a regular file with its content, or a directory with the
  names \<^verbatim>\<open>readdirSync\<close> lists for it, in listing order.\<close>

datatype node = File bytes | Dir "string list"

text \<open>
  What a \<^verbatim>\<open>throw\<close> carries.  \<open>ProbeUnopenable\<close> is the script's own
  \<^verbatim>\<open>new Error(...)\<close> of \<^verbatim>\<open>isAlreadyEncrypted\<close> ("cannot open the file, the password may be
  wrong"); \<open>CodecError\<close> is whatever the codec rejects a load or a serialisation with;
  the other three are the file system's.  \<^verbatim>\<open>e.message\<close> is identified with the error value.
\<close>

datatype error =
    ProbeUnopenable
  | CodecError string
  | ENOENT path
  | EISDIR path
  | ENOTDIR path

text \<open>
  Every line the script prints, with the values interpolated into it.  The Japanese wording
  and the rendering of sizes by \<^verbatim>\<open>formatSize\<close> (a \<^verbatim>\<open>toFixed\<close> of a floating-point quotient)
  are left out: a size is carried as its number of bytes.
\<close>

datatype message =
    UsageHeader
  | UsageEncrypt
  | UsageDecrypt
  | UsageVerify
  | NotFound path
  | NoTargets
  | BatchStart nat bool
  | FileFailed string error
  | BatchDone nat nat
  | UnknownCommand string
  | AlreadyEncryptedSkip string
  | EncryptDone string
  | NotEncryptedSkip string
  | DecryptDone string
  | VerifyStart string
  | OriginalInfo nat string
  | Step1
  | EncryptedInfo nat
  | Step2
  | DecryptedInfo nat string
  | PassthroughInfo nat string
  | CompareHeader
  | PassVsDecrypt bool
  | SizeDiff nat nat
  | SheetHeader
  | OrigSheets nat string
  | DecSheets nat string
  | SheetStructure bool
  | Verdict bool
  | TopLevelError error

text \<open>What the process does to the outside, in order: a line on standard output
  (\<^verbatim>\<open>console.log\<close>), a line on standard error (\<^verbatim>\<open>console.error\<close>), and each call into
  the file system.\<close>

datatype event =
    Log message
  | LogError message
  | FsExists path
  | FsStat path
  | FsReaddir path
  | FsRead path
  | FsWrite path bytes

record world =
  fs :: "path \<Rightarrow> node option"
  trace :: "event list"

text \<open>
  The pure collaborators.  \<open>parse pw buf\<close> is the codec's
  \<^verbatim>\<open>XlsxPopulate.fromDataAsync(buf, { password: pw })\<close> (\<open>None\<close>: no options object),
  \<open>serialize pw wb\<close> is \<^verbatim>\<open>wb.outputAsync({ password: pw, type: 'nodebuffer' })\<close>,
  \<open>sheet_names wb\<close> is \<^verbatim>\<open>wb.sheets().map(s => s.name())\<close>, and \<open>sha256_hex\<close> is
  \<^verbatim>\<open>crypto.createHash('sha256').update(buf).digest('hex')\<close>.  The workbook type \<open>'wb\<close> is the
  codec's own.
\<close>

record 'wb env =
  path_resolve :: "string \<Rightarrow> path"
  path_join :: "path \<Rightarrow> string \<Rightarrow> path"
  path_basename :: "path \<Rightarrow> string"
  parse :: "string option \<Rightarrow> bytes \<Rightarrow> error + 'wb"
  serialize :: "string option \<Rightarrow> 'wb \<Rightarrow> error + bytes"
  sheet_names :: "'wb \<Rightarrow> string list"
  sha256_hex :: "bytes \<Rightarrow> string"

section \<open>Effects: state passing with exceptions\<close>

text \<open>A computation takes the world and returns the value it produced, or the error it
  threw (\<open>Inl\<close>), together with the world it left.\<close>

type_synonym 'a io = "world \<Rightarrow> (error + 'a) \<times> world"

definition return :: "'a \<Rightarrow> 'a io" where
  "return x w = (Inr x, w)"

text \<open>\<open>andThen m k\<close> is \<^verbatim>\<open>const x = await m; k(x)\<close>: an error of \<open>m\<close> skips \<open>k\<close>.\<close>

definition andThen :: "'a io \<Rightarrow> ('a \<Rightarrow> 'b io) \<Rightarrow> 'b io" where
  "andThen m k w = (case m w of (Inl e, w') \<Rightarrow> (Inl e, w') | (Inr x, w') \<Rightarrow> k x w')"

definition emit :: "event \<Rightarrow> world \<Rightarrow> world" where
  "emit ev w = w\<lparr>trace := trace w @ [ev]\<rparr>"

definition console_log :: "message \<Rightarrow> unit io" where
  "console_log m w = (Inr (), emit (Log m) w)"

definition console_error :: "message \<Rightarrow> unit io" where
  "console_error m w = (Inr (), emit (LogError m) w)"

subsection \<open>The file system calls\<close>

definition existsSync :: "path \<Rightarrow> bool io" where
  "existsSync p w = (Inr (fs w p \<noteq> None), emit (FsExists p) w)"

text \<open>\<^verbatim>\<open>fs.statSync(p).isDirectory()\<close>\<close>

definition statSync_isDirectory :: "path \<Rightarrow> bool io" where
  "statSync_isDirectory p w =
     (case fs w p of
        None \<Rightarrow> (Inl (ENOENT p), emit (FsStat p) w)
      | Some (File b) \<Rightarrow> (Inr False, emit (FsStat p) w)
      | Some (Dir names) \<Rightarrow> (Inr True, emit (FsStat p) w))"

definition readdirSync :: "path \<Rightarrow> string list io" where
  "readdirSync p w =
     (case fs w p of
        None \<Rightarrow> (Inl (ENOENT p), emit (FsReaddir p) w)
      | Some (File b) \<Rightarrow> (Inl (ENOTDIR p), emit (FsReaddir p) w)
      | Some (Dir names) \<Rightarrow> (Inr names, emit (FsReaddir p) w))"

definition readFile :: "path \<Rightarrow> bytes io" where
  "readFile p w =
     (case fs w p of
        None \<Rightarrow> (Inl (ENOENT p), emit (FsRead p) w)
      | Some (File b) \<Rightarrow> (Inr b, emit (FsRead p) w)
      | Some (Dir names) \<Rightarrow> (Inl (EISDIR p), emit (FsRead p) w))"

text \<open>Writing replaces a file's content, or creates the file; the only write of the script
  is to a path it has just read as a file.  A directory cannot be written.\<close>

definition writeFile :: "path \<Rightarrow> bytes \<Rightarrow> unit io" where
  "writeFile p b w =
     (case fs w p of
        Some (Dir names) \<Rightarrow> (Inl (EISDIR p), w)
      | _ \<Rightarrow> (Inr (), emit (FsWrite p b) (w\<lparr>fs := (fs w)(p \<mapsto> File b)\<rparr>)))"

subsection \<open>The codec's calls\<close>

definition fromDataAsync :: "'wb env \<Rightarrow> bytes \<Rightarrow> string option \<Rightarrow> 'wb io" where
  "fromDataAsync env buf pw w = (parse env pw buf, w)"

definition outputAsync :: "'wb env \<Rightarrow> 'wb \<Rightarrow> string option \<Rightarrow> bytes io" where
  "outputAsync env wb pw w = (serialize env pw wb, w)"

text \<open>\<^verbatim>\<open>fromFileAsync\<close> reads the file and parses its bytes; \<^verbatim>\<open>toFileAsync\<close> serialises the
  workbook and writes the bytes.\<close>

definition fromFileAsync :: "'wb env \<Rightarrow> path \<Rightarrow> string option \<Rightarrow> 'wb io" where
  "fromFileAsync env p pw = andThen (readFile p) (\<lambda>buf. fromDataAsync env buf pw)"

definition toFileAsync :: "'wb env \<Rightarrow> 'wb \<Rightarrow> path \<Rightarrow> string option \<Rightarrow> unit io" where
  "toFileAsync env wb p pw = andThen (outputAsync env wb pw) (\<lambda>buf. writeFile p buf)"

section \<open>Utilities\<close>

text \<open>
  \<^verbatim>\<open>isAlreadyEncrypted\<close>: the two nested \<^verbatim>\<open>try\<close> blocks.  The workbook a successful load
  returns is dropped; the error a failed load throws is dropped too.
\<close>

definition isAlreadyEncrypted :: "'wb env \<Rightarrow> path \<Rightarrow> string \<Rightarrow> bool io" where
  "isAlreadyEncrypted env filePath password w =
     (case fromFileAsync env filePath None w of
        (Inr wb, w1) \<Rightarrow> (Inr False, w1)
      | (Inl e, w1) \<Rightarrow>
          (case fromFileAsync env filePath (Some password) w1 of
             (Inr wb, w2) \<Rightarrow> (Inr True, w2)
           | (Inl e2, w2) \<Rightarrow> (Inl ProbeUnopenable, w2)))"

definition hashBuffer :: "'wb env \<Rightarrow> bytes \<Rightarrow> string" where
  "hashBuffer env buffer = sha256_hex env buffer"

section \<open>The operations\<close>

definition encryptFile :: "'wb env \<Rightarrow> path \<Rightarrow> string \<Rightarrow> unit io" where
  "encryptFile env filePath password =
     (let fileName = path_basename env filePath in
      andThen (isAlreadyEncrypted env filePath password) (\<lambda>encrypted.
        if encrypted then console_log (AlreadyEncryptedSkip fileName)
        else
          andThen (fromFileAsync env filePath None) (\<lambda>workbook.
          andThen (toFileAsync env workbook filePath (Some password)) (\<lambda>_.
          console_log (EncryptDone fileName)))))"

definition decryptFile :: "'wb env \<Rightarrow> path \<Rightarrow> string \<Rightarrow> unit io" where
  "decryptFile env filePath password =
     (let fileName = path_basename env filePath in
      andThen (isAlreadyEncrypted env filePath password) (\<lambda>encrypted.
        if \<not> encrypted then console_log (NotEncryptedSkip fileName)
        else
          andThen (fromFileAsync env filePath (Some password)) (\<lambda>workbook.
          andThen (toFileAsync env workbook filePath None) (\<lambda>_.
          console_log (DecryptDone fileName)))))"

text \<open>\<^verbatim>\<open>Array.prototype.join\<close> and \<^verbatim>\<open>Math.abs(a - b)\<close> on lengths.\<close>

fun joinWith :: "string \<Rightarrow> string list \<Rightarrow> string" where
  "joinWith sep [] = []"
| "joinWith sep [x] = x"
| "joinWith sep (x # y # ys) = x @ sep @ joinWith sep (y # ys)"

definition absDiff :: "nat \<Rightarrow> nat \<Rightarrow> nat" where
  "absDiff a b = (if b \<le> a then a - b else b - a)"

text \<open>\<^verbatim>\<open>verifyFile\<close>, statement by statement.  It returns nothing: what it finds is printed.\<close>

definition verifyFile :: "'wb env \<Rightarrow> path \<Rightarrow> string \<Rightarrow> unit io" where
  "verifyFile env filePath password =
     (let fileName = path_basename env filePath in
      andThen (console_log (VerifyStart fileName)) (\<lambda>_.
      andThen (readFile filePath) (\<lambda>originalBuffer.
      let originalHash = hashBuffer env originalBuffer;
          originalSize = length originalBuffer in
      andThen (console_log (OriginalInfo originalSize (take 16 originalHash))) (\<lambda>_.
      andThen (console_log Step1) (\<lambda>_.
      andThen (fromDataAsync env originalBuffer None) (\<lambda>wb1.
      andThen (outputAsync env wb1 (Some password)) (\<lambda>encryptedBuffer.
      let encryptedSize = length encryptedBuffer in
      andThen (console_log (EncryptedInfo encryptedSize)) (\<lambda>_.
      andThen (console_log Step2) (\<lambda>_.
      andThen (fromDataAsync env encryptedBuffer (Some password)) (\<lambda>wb2.
      andThen (outputAsync env wb2 None) (\<lambda>decryptedBuffer.
      let decryptedSize = length decryptedBuffer;
          decryptedHash = hashBuffer env decryptedBuffer in
      andThen (console_log (DecryptedInfo decryptedSize (take 16 decryptedHash))) (\<lambda>_.
      andThen (fromDataAsync env originalBuffer None) (\<lambda>wb3.
      andThen (outputAsync env wb3 None) (\<lambda>passthroughBuffer.
      let passthroughSize = length passthroughBuffer;
          passthroughHash = hashBuffer env passthroughBuffer in
      andThen (console_log (PassthroughInfo passthroughSize (take 16 passthroughHash))) (\<lambda>_.
      andThen (console_log CompareHeader) (\<lambda>_.
      let passVsDecrypt = (passthroughHash = decryptedHash) in
      andThen (console_log (PassVsDecrypt passVsDecrypt)) (\<lambda>_.
      let sizeDiff = absDiff originalSize decryptedSize in
      andThen (console_log (SizeDiff sizeDiff originalSize)) (\<lambda>_.
      andThen (console_log SheetHeader) (\<lambda>_.
      andThen (fromDataAsync env originalBuffer None) (\<lambda>origWb.
      andThen (fromDataAsync env decryptedBuffer None) (\<lambda>decWb.
      let origSheets = sheet_names env origWb;
          decSheets = sheet_names env decWb in
      andThen (console_log (OrigSheets (length origSheets) (joinWith '', '' origSheets))) (\<lambda>_.
      andThen (console_log (DecSheets (length decSheets) (joinWith '', '' decSheets))) (\<lambda>_.
      andThen (console_log (SheetStructure (joinWith '','' origSheets = joinWith '','' decSheets))) (\<lambda>_.
      console_log (Verdict passVsDecrypt)))))))))))))))))))))))))"

section \<open>The main routine\<close>

text \<open>
  \<^verbatim>\<open>main\<close> ends by returning or by \<^verbatim>\<open>process.exit(n)\<close>, which stops the process where it
  stands; every \<^verbatim>\<open>process.exit\<close> of \<^verbatim>\<open>main\<close> is the last statement of its branch.
\<close>

datatype finish = Returned | Exited nat

definition process_exit :: "nat \<Rightarrow> finish io" where
  "process_exit n w = (Inr (Exited n), w)"

text \<open>\<^verbatim>\<open>const [,, command, password, targetPath] = process.argv\<close>: an index beyond the
  array gives \<^verbatim>\<open>undefined\<close> (\<open>None\<close>); \<^verbatim>\<open>!x\<close> holds of \<^verbatim>\<open>undefined\<close> and of the empty string.\<close>

definition nth_opt :: "'a list \<Rightarrow> nat \<Rightarrow> 'a option" where
  "nth_opt xs i = (if i < length xs then Some (xs ! i) else None)"

definition falsy :: "string option \<Rightarrow> bool" where
  "falsy v = (case v of None \<Rightarrow> True | Some s \<Rightarrow> s = [])"

text \<open>\<^verbatim>\<open>String.prototype.startsWith\<close> and \<^verbatim>\<open>endsWith\<close>, on the units of the string.\<close>

definition startsWith :: "string \<Rightarrow> string \<Rightarrow> bool" where
  "startsWith s pre = (take (length pre) s = pre)"

definition endsWith :: "string \<Rightarrow> string \<Rightarrow> bool" where
  "endsWith s suf = (length suf \<le> length s \<and> drop (length s - length suf) s = suf)"

definition usage :: "finish io" where
  "usage =
     andThen (console_log UsageHeader) (\<lambda>_.
     andThen (console_log UsageEncrypt) (\<lambda>_.
     andThen (console_log UsageDecrypt) (\<lambda>_.
     andThen (console_log UsageVerify) (\<lambda>_.
     process_exit 1))))"

text \<open>Lines 48 to 50: the names of the listing that are kept, joined to the directory.\<close>

definition selected :: "string \<Rightarrow> bool" where
  "selected f = (endsWith f ''.xlsx'' \<and> \<not> startsWith f ''~$'')"

definition candidates :: "'wb env \<Rightarrow> path \<Rightarrow> string list \<Rightarrow> path list" where
  "candidates env resolvedPath names = map (path_join env resolvedPath) (filter selected names)"

text \<open>The body of the \<^verbatim>\<open>try\<close> of the batch loop.  No branch is taken for a command that is
  none of the three.\<close>

definition batch_dispatch :: "'wb env \<Rightarrow> string \<Rightarrow> string \<Rightarrow> path \<Rightarrow> unit io" where
  "batch_dispatch env command password file =
     (if command = ''encrypt'' then encryptFile env file password
      else if command = ''decrypt'' then decryptFile env file password
      else if command = ''verify'' then verifyFile env file password
      else return ())"

text \<open>One turn of the loop, \<^verbatim>\<open>try { ...; success++ } catch (e) { console.error(...); fail++ }\<close>,
  on the two counters.\<close>

definition try_file ::
  "'wb env \<Rightarrow> string \<Rightarrow> string \<Rightarrow> path \<Rightarrow> nat \<times> nat \<Rightarrow> world \<Rightarrow> (nat \<times> nat) \<times> world" where
  "try_file env command password file counters w =
     (case counters of (success, fail) \<Rightarrow>
        (case batch_dispatch env command password file w of
           (Inr u, w') \<Rightarrow> ((success + 1, fail), w')
         | (Inl e, w') \<Rightarrow>
             ((success, fail + 1),
              emit (LogError (FileFailed (path_basename env file) e)) w')))"

fun batch_loop ::
  "'wb env \<Rightarrow> string \<Rightarrow> string \<Rightarrow> path list \<Rightarrow> nat \<times> nat \<Rightarrow> world \<Rightarrow> (nat \<times> nat) \<times> world" where
  "batch_loop env command password [] counters w = (counters, w)"
| "batch_loop env command password (file # files) counters w =
     (case try_file env command password file counters w of
        (counters', w') \<Rightarrow> batch_loop env command password files counters' w')"

definition run_directory :: "'wb env \<Rightarrow> string \<Rightarrow> string \<Rightarrow> path \<Rightarrow> finish io" where
  "run_directory env command password resolvedPath =
     andThen (readdirSync resolvedPath) (\<lambda>names.
       let files = candidates env resolvedPath names in
       if length files = 0 then
         andThen (console_log NoTargets) (\<lambda>_. process_exit 0)
       else
         andThen (console_log (BatchStart (length files) (command = ''encrypt''))) (\<lambda>_ w.
           case batch_loop env command password files (0, 0) w of
             ((success, fail), w') \<Rightarrow>
               andThen (console_log (BatchDone success fail)) (\<lambda>_. return Returned) w'))"

definition run_single :: "'wb env \<Rightarrow> string \<Rightarrow> string \<Rightarrow> path \<Rightarrow> finish io" where
  "run_single env command password resolvedPath =
     (if command = ''encrypt'' then
        andThen (encryptFile env resolvedPath password) (\<lambda>_. return Returned)
      else if command = ''decrypt'' then
        andThen (decryptFile env resolvedPath password) (\<lambda>_. return Returned)
      else if command = ''verify'' then
        andThen (verifyFile env resolvedPath password) (\<lambda>_. return Returned)
      else
        andThen (console_error (UnknownCommand command)) (\<lambda>_. process_exit 1))"

definition main_resolved :: "'wb env \<Rightarrow> string \<Rightarrow> string \<Rightarrow> string \<Rightarrow> finish io" where
  "main_resolved env command password targetPath =
     (let resolvedPath = path_resolve env targetPath in
      andThen (existsSync resolvedPath) (\<lambda>found.
        if \<not> found then
          andThen (console_error (NotFound resolvedPath)) (\<lambda>_. process_exit 1)
        else
          andThen (statSync_isDirectory resolvedPath) (\<lambda>isDirectory.
            if isDirectory then run_directory env command password resolvedPath
            else run_single env command password resolvedPath)))"

definition main :: "'wb env \<Rightarrow> string list \<Rightarrow> finish io" where
  "main env argv =
     (let command = nth_opt argv 2; password = nth_opt argv 3; targetPath = nth_opt argv 4 in
      if falsy command \<or> falsy password \<or> falsy targetPath then usage
      else
        (case (command, password, targetPath) of
           (Some c, Some p, Some t) \<Rightarrow> main_resolved env c p t
         | _ \<Rightarrow> usage))"

text \<open>
  The last line of the script, \<^verbatim>\<open>main().catch(e => { console.error(...); process.exit(1) })\<close>:
  the exit status of the process and the world it leaves.  A \<^verbatim>\<open>main\<close> that returns lets
  the process end with status 0.
\<close>

definition run :: "'wb env \<Rightarrow> string list \<Rightarrow> world \<Rightarrow> nat \<times> world" where
  "run env argv w =
     (case main env argv w of
        (Inr Returned, w') \<Rightarrow> (0, w')
      | (Inr (Exited n), w') \<Rightarrow> (n, w')
      | (Inl e, w') \<Rightarrow> (1, emit (LogError (TopLevelError e)) w'))"

section \<open>Observations on a world\<close>

text \<open>The writes a run has made are the \<open>FsWrite\<close> events of its trace; its calls into the
  file system are the events that are not printed lines; its verdicts are the booleans of the
  \<open>Verdict\<close> lines it has printed.\<close>

fun is_write :: "event \<Rightarrow> bool" where
  "is_write (FsWrite p b) = True"
| "is_write ev = False"

definition writes :: "world \<Rightarrow> event list" where
  "writes w = filter is_write (trace w)"

fun is_fs_call :: "event \<Rightarrow> bool" where
  "is_fs_call (Log m) = False"
| "is_fs_call (LogError m) = False"
| "is_fs_call ev = True"

definition fs_calls :: "world \<Rightarrow> event list" where
  "fs_calls w = filter is_fs_call (trace w)"

fun verdict_of :: "event \<Rightarrow> bool option" where
  "verdict_of (Log (Verdict b)) = Some b"
| "verdict_of ev = None"

definition verdicts :: "world \<Rightarrow> bool list" where
  "verdicts w = List.map_filter verdict_of (trace w)"

text \<open>A computation is quiet when it leaves the file system as it is and makes no call
  into it.\<close>

definition quiet :: "'a io \<Rightarrow> bool" where
  "quiet m \<longleftrightarrow> (\<forall>w. fs (snd (m w)) = fs w \<and> fs_calls (snd (m w)) = fs_calls w)"

text \<open>
  The batch loop seen file by file: the world in which the \<open>i\<close>-th candidate is processed is
  the world the loop leaves after the \<open>i\<close> candidates before it; the candidate fails when the
  dispatch throws there; the failures of a batch are the candidates that fail.
\<close>

definition world_before ::
  "'wb env \<Rightarrow> string \<Rightarrow> string \<Rightarrow> path list \<Rightarrow> world \<Rightarrow> nat \<Rightarrow> world" where
  "world_before env command password files w i =
     snd (batch_loop env command password (take i files) (0, 0) w)"

definition file_fails ::
  "'wb env \<Rightarrow> string \<Rightarrow> string \<Rightarrow> path list \<Rightarrow> world \<Rightarrow> nat \<Rightarrow> bool" where
  "file_fails env command password files w i =
     isl (fst (batch_dispatch env command password (files ! i)
                 (world_before env command password files w i)))"

definition failures :: "'wb env \<Rightarrow> string \<Rightarrow> string \<Rightarrow> path list \<Rightarrow> world \<Rightarrow> nat" where
  "failures env command password files w =
     length (filter (file_fails env command password files w) [0..<length files])"

text \<open>
  What the script relies on the codec for when it encrypts: bytes serialised under a
  password do not load without a password, and load with that password.
\<close>

definition codec_protects :: "'wb env \<Rightarrow> string \<Rightarrow> bool" where
  "codec_protects env pw \<longleftrightarrow>
     (\<forall>wb buf. serialize env (Some pw) wb = Inr buf \<longrightarrow>
        isl (parse env None buf) \<and> \<not> isl (parse env (Some pw) buf))"

section \<open>A small codec and a small disk, for concrete runs\<close>

text \<open>
  A stand-in for the collaborators, small enough to run by hand.  A workbook is its
  payload; a plain container is the byte 0 (or, in an older layout that is read but never
  written, the byte 2) before the payload, a protected one is the byte 1, a key byte derived
  from the password, and the payload.  Paths are POSIX, the working directory is \<^verbatim>\<open>/w\<close>.
\<close>

definition demo_key :: "string \<Rightarrow> 8 word" where
  "demo_key pw = of_nat (length pw)"

definition demo_parse :: "string option \<Rightarrow> bytes \<Rightarrow> error + bytes" where
  "demo_parse pw buf =
     (case buf of
        [] \<Rightarrow> Inl (CodecError ''empty'')
      | t # rest \<Rightarrow>
          if t = 0 \<or> t = 2 then Inr rest
          else if t = 1 then
            (case pw of
               None \<Rightarrow> Inl (CodecError ''protected'')
             | Some p \<Rightarrow>
                 (case rest of
                    [] \<Rightarrow> Inl (CodecError ''truncated'')
                  | k # payload \<Rightarrow>
                      if k = demo_key p then Inr payload else Inl (CodecError ''wrong password'')))
          else Inl (CodecError ''not a workbook''))"

definition demo_serialize :: "string option \<Rightarrow> bytes \<Rightarrow> error + bytes" where
  "demo_serialize pw wb =
     (case pw of None \<Rightarrow> Inr (0 # wb) | Some p \<Rightarrow> Inr (1 # demo_key p # wb))"

definition demo_basename :: "path \<Rightarrow> string" where
  "demo_basename p = rev (takeWhile (\<lambda>c. c \<noteq> CHR ''/'') (rev p))"

definition demo_hash :: "bytes \<Rightarrow> string" where
  "demo_hash buf = concat (map (\<lambda>b. if b = 0 then ''00'' else if b = 1 then ''01'' else ''ff'') buf)"

definition demo_env :: "bytes env" where
  "demo_env =
     \<lparr> path_resolve = (\<lambda>t. ''/w/'' @ t),
       path_join = (\<lambda>d f. d @ ''/'' @ f),
       path_basename = demo_basename,
       parse = demo_parse,
       serialize = demo_serialize,
       sheet_names = (\<lambda>wb. [''Sheet1'']),
       sha256_hex = demo_hash \<rparr>"

text \<open>
  The disk: a directory \<^verbatim>\<open>/w/d\<close> whose listing holds the four names of the filter example and
  two more workbooks, a directory with no workbook, and the files.  \<^verbatim>\<open>a.xlsx\<close> is plain,
  \<^verbatim>\<open>e.xlsx\<close> is not a workbook, \<^verbatim>\<open>c.xlsx\<close> is protected under a four-letter password,
  \<^verbatim>\<open>old.xlsx\<close> is plain in the older layout.
\<close>

definition demo_fs :: "path \<Rightarrow> node option" where
  "demo_fs =
     [''/w/d'' \<mapsto> Dir [''a.xlsx'', ''~$a.xlsx'', ''b.txt'', ''B.XLSX'', ''e.xlsx'', ''c.xlsx''],
      ''/w/none'' \<mapsto> Dir [''b.txt'', ''~$a.xlsx''],
      ''/w/d/a.xlsx'' \<mapsto> File [0, 7, 8],
      ''/w/d/e.xlsx'' \<mapsto> File [5],
      ''/w/d/c.xlsx'' \<mapsto> File [1, 4, 9],
      ''/w/old.xlsx'' \<mapsto> File [2, 7, 8]]"

definition demo_world :: world where
  "demo_world = \<lparr> fs = demo_fs, trace = [] \<rparr>"

section \<open>Basic facts\<close>

lemmas io_defs =
  return_def andThen_def emit_def console_log_def console_error_def existsSync_def
  statSync_isDirectory_def readdirSync_def readFile_def writeFile_def fromDataAsync_def
  outputAsync_def fromFileAsync_def toFileAsync_def process_exit_def

lemmas script_defs =
  isAlreadyEncrypted_def hashBuffer_def encryptFile_def decryptFile_def verifyFile_def
  absDiff_def nth_opt_def falsy_def startsWith_def endsWith_def usage_def selected_def
  candidates_def batch_dispatch_def try_file_def run_directory_def run_single_def
  main_resolved_def main_def run_def Let_def

lemmas demo_defs =
  demo_env_def demo_world_def demo_fs_def demo_parse_def demo_serialize_def demo_key_def
  demo_basename_def demo_hash_def

lemma fs_emit [simp]: "fs (emit ev w) = fs w"
  by (simp add: emit_def)

lemma trace_emit [simp]: "trace (emit ev w) = trace w @ [ev]"
  by (simp add: emit_def)

lemma fromFileAsync_snd [simp]: "snd (fromFileAsync env p pw w) = emit (FsRead p) w"
  by (simp add: fromFileAsync_def andThen_def readFile_def fromDataAsync_def
      split: option.splits node.splits sum.splits prod.splits)

lemma fromFileAsync_fst:
  "fst (fromFileAsync env p pw w) =
     (case fs w p of None \<Rightarrow> Inl (ENOENT p) | Some (File b) \<Rightarrow> parse env pw b
      | Some (Dir names) \<Rightarrow> Inl (EISDIR p))"
  by (simp add: fromFileAsync_def andThen_def readFile_def fromDataAsync_def
      split: option.splits node.splits sum.splits prod.splits)

lemma fromFileAsync_fs_cong:
  "fs w' = fs w \<Longrightarrow> fst (fromFileAsync env p pw w') = fst (fromFileAsync env p pw w)"
  by (simp add: fromFileAsync_fst)

section \<open>The encryption-state probe\<close>

lemma isAlreadyEncrypted_fst:
  "fst (isAlreadyEncrypted env p pw w) =
     (if \<not> isl (fst (fromFileAsync env p None w)) then Inr False
      else if \<not> isl (fst (fromFileAsync env p (Some pw) w)) then Inr True
      else Inl ProbeUnopenable)"
proof -
  obtain r1 w1 where l1: "fromFileAsync env p None w = (r1, w1)" by fastforce
  then have w1: "w1 = emit (FsRead p) w" using fromFileAsync_snd [of env p None w] by simp
  obtain r2 w2 where l2: "fromFileAsync env p (Some pw) w1 = (r2, w2)" by fastforce
  have r2: "fst (fromFileAsync env p (Some pw) w) = r2"
    using l2 fromFileAsync_fs_cong [of w1 w env p "Some pw"] w1 by simp
  show ?thesis
    by (cases r1; cases r2) (simp_all add: isAlreadyEncrypted_def l1 l2 r2)
qed

text \<open>
  C1.  The probe returns \<open>False\<close> exactly when the load of the file without a password
  succeeds, returns \<open>True\<close> exactly when that load fails and the load with the given password
  succeeds, and throws its "cannot open" error exactly when both loads fail.  The three
  outcomes are three different values, so the error is never the answer "unprotected".
\<close>

theorem isAlreadyEncrypted_outcomes:
  "(fst (isAlreadyEncrypted env p pw w) = Inr False
      \<longleftrightarrow> \<not> isl (fst (fromFileAsync env p None w)))
   \<and> (fst (isAlreadyEncrypted env p pw w) = Inr True
      \<longleftrightarrow> isl (fst (fromFileAsync env p None w))
          \<and> \<not> isl (fst (fromFileAsync env p (Some pw) w)))
   \<and> (fst (isAlreadyEncrypted env p pw w) = Inl ProbeUnopenable
      \<longleftrightarrow> isl (fst (fromFileAsync env p None w))
          \<and> isl (fst (fromFileAsync env p (Some pw) w)))"
  by (simp add: isAlreadyEncrypted_fst)

section \<open>Encrypting and decrypting, and doing it twice\<close>

lemma fromFileAsync_eq:
  "fromFileAsync env p pw w = (fst (fromFileAsync env p pw w), emit (FsRead p) w)"
  by (metis prod.collapse fromFileAsync_snd)

lemma isAlreadyEncrypted_eq:
  "isAlreadyEncrypted env p pw w =
     (if \<not> isl (fst (fromFileAsync env p None w)) then (Inr False, emit (FsRead p) w)
      else (fst (isAlreadyEncrypted env p pw w), emit (FsRead p) (emit (FsRead p) w)))"
proof -
  obtain r1 where l1: "fromFileAsync env p None w = (r1, emit (FsRead p) w)"
    using fromFileAsync_eq by blast
  obtain r2 where l2:
    "fromFileAsync env p (Some pw) (emit (FsRead p) w) = (r2, emit (FsRead p) (emit (FsRead p) w))"
    using fromFileAsync_eq by blast
  show ?thesis
    by (cases r1; cases r2) (simp_all add: isAlreadyEncrypted_def l1 l2)
qed

lemma fromFileAsync_ok:
  assumes "\<not> isl (fst (fromFileAsync env p pw w))"
  obtains b wb where "fs w p = Some (File b)" and "parse env pw b = Inr wb"
proof (cases "fs w p")
  case None
  then show ?thesis using assms by (simp add: fromFileAsync_fst)
next
  case (Some n)
  then show ?thesis
  proof (cases n)
    case (File b)
    then have "\<not> isl (parse env pw b)" using assms Some by (simp add: fromFileAsync_fst)
    then obtain wb where "parse env pw b = Inr wb" by (cases "parse env pw b") simp_all
    then show ?thesis using that Some File by simp
  next
    case (Dir names)
    then show ?thesis using assms Some by (simp add: fromFileAsync_fst)
  qed
qed

lemma isAlreadyEncrypted_fs_cong:
  assumes "fs w' = fs w"
  shows "fst (isAlreadyEncrypted env p pw w') = fst (isAlreadyEncrypted env p pw w)"
  unfolding isAlreadyEncrypted_fst
  by (simp only: fromFileAsync_fs_cong [OF assms])

lemma encryptFile_skip:
  assumes "fst (isAlreadyEncrypted env f pw w) = Inr True"
  shows "encryptFile env f pw w =
           (Inr (), emit (Log (AlreadyEncryptedSkip (path_basename env f)))
                      (emit (FsRead f) (emit (FsRead f) w)))"
proof -
  have "isl (fst (fromFileAsync env f None w))"
    using assms by (simp add: isAlreadyEncrypted_fst split: if_splits)
  then have "isAlreadyEncrypted env f pw w = (Inr True, emit (FsRead f) (emit (FsRead f) w))"
    using assms isAlreadyEncrypted_eq [of env f pw w] by simp
  then show ?thesis
    by (simp add: encryptFile_def Let_def andThen_def console_log_def)
qed

lemma decryptFile_skip:
  assumes "fst (isAlreadyEncrypted env f pw w) = Inr False"
  shows "decryptFile env f pw w =
           (Inr (), emit (Log (NotEncryptedSkip (path_basename env f))) (emit (FsRead f) w))"
proof -
  have "\<not> isl (fst (fromFileAsync env f None w))"
    using assms by (simp add: isAlreadyEncrypted_fst split: if_splits)
  then have "isAlreadyEncrypted env f pw w = (Inr False, emit (FsRead f) w)"
    using isAlreadyEncrypted_eq [of env f pw w] by simp
  then show ?thesis
    by (simp add: decryptFile_def Let_def andThen_def console_log_def)
qed

lemma encryptFile_throw:
  assumes "fst (isAlreadyEncrypted env f pw w) = Inl e"
  shows "encryptFile env f pw w = (Inl e, emit (FsRead f) (emit (FsRead f) w))"
proof -
  have "isl (fst (fromFileAsync env f None w))"
    using assms by (simp add: isAlreadyEncrypted_fst split: if_splits)
  then have "isAlreadyEncrypted env f pw w = (Inl e, emit (FsRead f) (emit (FsRead f) w))"
    using assms isAlreadyEncrypted_eq [of env f pw w] by simp
  then show ?thesis
    by (simp add: encryptFile_def Let_def andThen_def)
qed

text \<open>The encrypting branch: the file is a plain workbook.\<close>

lemma encryptFile_plain:
  assumes "fs w f = Some (File b)" and "parse env None b = Inr wb"
  shows "encryptFile env f pw w =
           (case serialize env (Some pw) wb of
              Inl e \<Rightarrow> (Inl e, emit (FsRead f) (emit (FsRead f) w))
            | Inr buf \<Rightarrow>
                (Inr (), emit (Log (EncryptDone (path_basename env f)))
                   (emit (FsWrite f buf)
                      ((emit (FsRead f) (emit (FsRead f) w))\<lparr>fs := (fs w)(f \<mapsto> File buf)\<rparr>))))"
proof -
  have l: "fst (fromFileAsync env f None w) = Inr wb"
    using assms by (simp add: fromFileAsync_fst)
  then have p: "isAlreadyEncrypted env f pw w = (Inr False, emit (FsRead f) w)"
    using isAlreadyEncrypted_eq [of env f pw w] by simp
  have l2: "fromFileAsync env f None (emit (FsRead f) w) = (Inr wb, emit (FsRead f) (emit (FsRead f) w))"
    using fromFileAsync_eq [of env f None "emit (FsRead f) w"] assms
    by (simp add: fromFileAsync_fst)
  show ?thesis
    using assms(1)
    by (simp add: encryptFile_def Let_def andThen_def p l2 toFileAsync_def outputAsync_def
        writeFile_def console_log_def split: sum.splits)
qed

lemma writes_emit [simp]:
  "writes (emit ev w) = (if is_write ev then writes w @ [ev] else writes w)"
  by (simp add: writes_def)

lemma writes_fs_update [simp]: "writes (w\<lparr>fs := g\<rparr>) = writes w"
  by (simp add: writes_def)

lemma encryptFile_twice:
  assumes "codec_protects env pw"
    and w1_def: "w1 = snd (encryptFile env f pw w)"
    and w2_def: "w2 = snd (encryptFile env f pw w1)"
  shows "fs w2 = fs w1 \<and> writes w2 = writes w1 \<and> length (writes w1) \<le> length (writes w) + 1
         \<and> (fst (encryptFile env f pw w) = Inr () \<longrightarrow> fst (encryptFile env f pw w1) = Inr ())"
proof (cases "fst (isAlreadyEncrypted env f pw w)")
  case (Inl e)
  then have 1: "encryptFile env f pw w = (Inl e, emit (FsRead f) (emit (FsRead f) w))"
    by (rule encryptFile_throw)
  then have fs1: "fs w1 = fs w" by (simp add: w1_def)
  have "fst (isAlreadyEncrypted env f pw w1) = Inl e"
    by (simp add: isAlreadyEncrypted_fs_cong [OF fs1] Inl)
  then have 2: "encryptFile env f pw w1 = (Inl e, emit (FsRead f) (emit (FsRead f) w1))"
    by (rule encryptFile_throw)
  show ?thesis using 1 2 by (simp add: w1_def w2_def)
next
  case (Inr enc)
  show ?thesis
  proof (cases enc)
    case True
    then have p: "fst (isAlreadyEncrypted env f pw w) = Inr True" using Inr by simp
    note 1 = encryptFile_skip [OF p]
    then have fs1: "fs w1 = fs w" by (simp add: w1_def)
    have "fst (isAlreadyEncrypted env f pw w1) = Inr True"
      by (simp add: isAlreadyEncrypted_fs_cong [OF fs1] p)
    note 2 = encryptFile_skip [OF this]
    show ?thesis using 1 2 by (simp add: w1_def w2_def)
  next
    case False
    then have "\<not> isl (fst (fromFileAsync env f None w))"
      using Inr by (simp add: isAlreadyEncrypted_fst split: if_splits)
    then obtain b wb where b: "fs w f = Some (File b)" and wb: "parse env None b = Inr wb"
      using fromFileAsync_ok by blast
    note 1 = encryptFile_plain [OF b wb, of pw]
    show ?thesis
    proof (cases "serialize env (Some pw) wb")
      case (Inl e)
      then have e1: "encryptFile env f pw w = (Inl e, emit (FsRead f) (emit (FsRead f) w))"
        using 1 by simp
      then have fs1: "fs w1 f = Some (File b)" by (simp add: w1_def b)
      have e2: "encryptFile env f pw w1 = (Inl e, emit (FsRead f) (emit (FsRead f) w1))"
        using encryptFile_plain [OF fs1 wb, of pw] Inl by simp
      show ?thesis using e1 e2 by (simp add: w1_def w2_def)
    next
      case (Inr buf)
      then have e1: "encryptFile env f pw w =
          (Inr (), emit (Log (EncryptDone (path_basename env f)))
                   (emit (FsWrite f buf)
                      ((emit (FsRead f) (emit (FsRead f) w))\<lparr>fs := (fs w)(f \<mapsto> File buf)\<rparr>)))"
        using 1 by simp
      then have fs1: "fs w1 f = Some (File buf)" by (simp add: w1_def)
      have prot: "isl (parse env None buf)" "\<not> isl (parse env (Some pw) buf)"
        using assms(1) Inr by (auto simp: codec_protects_def)
      have "fst (isAlreadyEncrypted env f pw w1) = Inr True"
        using fs1 prot by (simp add: isAlreadyEncrypted_fst fromFileAsync_fst)
      note e2 = encryptFile_skip [OF this]
      show ?thesis using e1 e2 by (simp add: w1_def w2_def)
    qed
  qed
qed


text \<open>
  C2.  \<^verbatim>\<open>encryptFile\<close> on a file the probe reports protected returns normally, leaves the
  file system as it was, and only reads the file (twice, in the probe) and prints the skip
  line; \<^verbatim>\<open>decryptFile\<close> on a file the probe reports unprotected likewise.  Consequently, with a
  codec whose protected output loads only under the password, a second \<^verbatim>\<open>encryptFile\<close> with the
  same password right after a first one writes nothing and leaves the file system as the first
  left it, the two runs together write at most once, and the second returns normally when the
  first did.
\<close>

theorem encrypt_decrypt_idempotent:
  "(fst (isAlreadyEncrypted env f pw w) = Inr True \<longrightarrow>
      fst (encryptFile env f pw w) = Inr ()
      \<and> fs (snd (encryptFile env f pw w)) = fs w
      \<and> trace (snd (encryptFile env f pw w)) =
          trace w @ [FsRead f, FsRead f, Log (AlreadyEncryptedSkip (path_basename env f))])
   \<and> (fst (isAlreadyEncrypted env f pw w) = Inr False \<longrightarrow>
      fst (decryptFile env f pw w) = Inr ()
      \<and> fs (snd (decryptFile env f pw w)) = fs w
      \<and> trace (snd (decryptFile env f pw w)) =
          trace w @ [FsRead f, Log (NotEncryptedSkip (path_basename env f))])
   \<and> (codec_protects env pw \<longrightarrow>
      (let w1 = snd (encryptFile env f pw w); w2 = snd (encryptFile env f pw w1) in
       fs w2 = fs w1 \<and> writes w2 = writes w1 \<and> length (writes w1) \<le> length (writes w) + 1
       \<and> (fst (encryptFile env f pw w) = Inr () \<longrightarrow> fst (encryptFile env f pw w1) = Inr ())))"
proof (intro conjI impI)
  assume "codec_protects env pw"
  then show "let w1 = snd (encryptFile env f pw w); w2 = snd (encryptFile env f pw w1) in
       fs w2 = fs w1 \<and> writes w2 = writes w1 \<and> length (writes w1) \<le> length (writes w) + 1
       \<and> (fst (encryptFile env f pw w) = Inr () \<longrightarrow> fst (encryptFile env f pw w1) = Inr ())"
    using encryptFile_twice [of env pw _ f w] by (simp add: Let_def)
qed (simp_all add: encryptFile_skip decryptFile_skip)

lemma demo_codec_protects: "codec_protects demo_env pw"
  by (simp add: codec_protects_def demo_env_def demo_parse_def demo_serialize_def)

lemma demo_probe_c: "fst (isAlreadyEncrypted demo_env ''/w/d/c.xlsx'' ''1234'' demo_world) = Inr True"
  by (simp add: isAlreadyEncrypted_fst fromFileAsync_fst demo_defs)

lemma demo_probe_a: "fst (isAlreadyEncrypted demo_env ''/w/d/a.xlsx'' ''1234'' demo_world) = Inr False"
  by (simp add: isAlreadyEncrypted_fst fromFileAsync_fst demo_defs)

lemma demo_encrypt_a:
  "fs (snd (encryptFile demo_env ''/w/d/a.xlsx'' ''1234'' demo_world)) ''/w/d/a.xlsx''
     = Some (File [1, 4, 7, 8])
   \<and> writes (snd (encryptFile demo_env ''/w/d/a.xlsx'' ''1234'' demo_world))
     = [FsWrite ''/w/d/a.xlsx'' [1, 4, 7, 8]]"
proof -
  have f: "fs demo_world ''/w/d/a.xlsx'' = Some (File [0, 7, 8])"
    by (simp add: demo_world_def demo_fs_def)
  have p: "parse demo_env None [0, 7, 8] = Inr [7, 8]"
    by (simp add: demo_env_def demo_parse_def)
  have s: "serialize demo_env (Some ''1234'') [7, 8] = Inr [1, 4, 7, 8]"
    by (simp add: demo_env_def demo_serialize_def demo_key_def)
  have t: "writes demo_world = []"
    by (simp add: writes_def demo_world_def)
  show ?thesis
    by (simp add: encryptFile_plain [OF f p] s t)
qed

theorem encrypt_decrypt_idempotent_witness:
  "fst (isAlreadyEncrypted demo_env ''/w/d/c.xlsx'' ''1234'' demo_world) = Inr True
   \<and> fst (encryptFile demo_env ''/w/d/c.xlsx'' ''1234'' demo_world) = Inr ()
   \<and> fs (snd (encryptFile demo_env ''/w/d/c.xlsx'' ''1234'' demo_world)) = demo_fs
   \<and> fst (isAlreadyEncrypted demo_env ''/w/d/a.xlsx'' ''1234'' demo_world) = Inr False
   \<and> fst (decryptFile demo_env ''/w/d/a.xlsx'' ''1234'' demo_world) = Inr ()
   \<and> fs (snd (decryptFile demo_env ''/w/d/a.xlsx'' ''1234'' demo_world)) = demo_fs
   \<and> codec_protects demo_env ''1234''
   \<and> fs (snd (encryptFile demo_env ''/w/d/a.xlsx'' ''1234''
              (snd (encryptFile demo_env ''/w/d/a.xlsx'' ''1234'' demo_world)))) ''/w/d/a.xlsx''
       = Some (File [1, 4, 7, 8])
   \<and> writes (snd (encryptFile demo_env ''/w/d/a.xlsx'' ''1234''
              (snd (encryptFile demo_env ''/w/d/a.xlsx'' ''1234'' demo_world))))
       = [FsWrite ''/w/d/a.xlsx'' [1, 4, 7, 8]]"
proof -
  have w: "fs demo_world = demo_fs" by (simp add: demo_world_def)
  show ?thesis
    using encrypt_decrypt_idempotent [of demo_env "''/w/d/c.xlsx''" "''1234''" demo_world]
      encrypt_decrypt_idempotent [of demo_env "''/w/d/a.xlsx''" "''1234''" demo_world]
      demo_probe_c demo_probe_a demo_codec_protects [of "''1234''"] demo_encrypt_a
    by (simp add: Let_def w)
qed

section \<open>The candidate filter\<close>

lemma endsWith_suffix: "endsWith s suf \<longleftrightarrow> suffix suf s"
proof
  assume "endsWith s suf"
  then have "s = take (length s - length suf) s @ suf"
    by (metis append_take_drop_id endsWith_def)
  then show "suffix suf s" by (metis suffixI)
next
  assume "suffix suf s"
  then obtain zs where "s = zs @ suf" by (auto simp: suffix_def)
  then show "endsWith s suf" by (simp add: endsWith_def)
qed

lemma startsWith_prefix: "startsWith s pre \<longleftrightarrow> prefix pre s"
proof
  assume "startsWith s pre"
  then have "s = pre @ drop (length pre) s"
    by (metis append_take_drop_id startsWith_def)
  then show "prefix pre s" by (metis prefixI)
next
  assume "prefix pre s"
  then obtain zs where "s = pre @ zs" by (auto simp: prefix_def)
  then show "startsWith s pre" by (simp add: startsWith_def)
qed

text \<open>
  C5.  In directory mode a name of the listing is kept exactly when it ends with \<^verbatim>\<open>.xlsx\<close>
  (compared unit by unit, so case-sensitively) and does not start with \<^verbatim>\<open>~$\<close>; the candidates
  are the kept names, in listing order, joined to the directory.  Of \<^verbatim>\<open>a.xlsx\<close>,
  \<^verbatim>\<open>~$a.xlsx\<close>, \<^verbatim>\<open>b.txt\<close>, \<^verbatim>\<open>B.XLSX\<close> only \<^verbatim>\<open>a.xlsx\<close> is kept.
\<close>

theorem candidates_selected:
  "(selected f \<longleftrightarrow> suffix ''.xlsx'' f \<and> \<not> prefix ''~$'' f)
   \<and> candidates env d names =
       map (path_join env d) (filter (\<lambda>f. suffix ''.xlsx'' f \<and> \<not> prefix ''~$'' f) names)
   \<and> candidates env d [''a.xlsx'', ''~$a.xlsx'', ''b.txt'', ''B.XLSX''] = [path_join env d ''a.xlsx'']"
proof -
  have sel: "selected = (\<lambda>f. suffix ''.xlsx'' f \<and> \<not> prefix ''~$'' f)"
    by (rule ext) (simp add: selected_def endsWith_suffix startsWith_prefix)
  have ex: "filter selected [''a.xlsx'', ''~$a.xlsx'', ''b.txt'', ''B.XLSX''] = [''a.xlsx'']"
    by (simp add: selected_def endsWith_def startsWith_def)
  show ?thesis
    using ex by (simp add: sel candidates_def)
qed

section \<open>Arguments, target and the ways out of \<^verbatim>\<open>main\<close>\<close>

lemma usage_eq:
  "usage w = (Inr (Exited 1),
     w\<lparr>trace := trace w @ [Log UsageHeader, Log UsageEncrypt, Log UsageDecrypt, Log UsageVerify]\<rparr>)"
  by (simp add: usage_def andThen_def console_log_def process_exit_def emit_def)

lemma run_usage:
  assumes "falsy (nth_opt argv 2) \<or> falsy (nth_opt argv 3) \<or> falsy (nth_opt argv 4)"
  shows "run env argv w = (1,
     w\<lparr>trace := trace w @ [Log UsageHeader, Log UsageEncrypt, Log UsageDecrypt, Log UsageVerify]\<rparr>)"
  using assms by (simp add: run_def main_def usage_eq Let_def)

lemma main_args:
  assumes "c \<noteq> []" "p \<noteq> []" "t \<noteq> []"
  shows "main env (n # s # c # p # t # rest) = main_resolved env c p t"
  using assms by (simp add: main_def nth_opt_def falsy_def)

lemma run_not_found:
  assumes "c \<noteq> []" "p \<noteq> []" "t \<noteq> []" and "fs w (path_resolve env t) = None"
  shows "run env (n # s # c # p # t # rest) w = (1,
     w\<lparr>trace := trace w @ [FsExists (path_resolve env t), LogError (NotFound (path_resolve env t))]\<rparr>)"
  using assms(4)
  by (simp add: run_def main_args [OF assms(1-3)] main_resolved_def Let_def andThen_def existsSync_def
      console_error_def process_exit_def emit_def)

lemma main_resolved_file:
  assumes "fs w (path_resolve env t) = Some (File b)"
  shows "main_resolved env c p t w =
     run_single env c p (path_resolve env t)
       (w\<lparr>trace := trace w @ [FsExists (path_resolve env t), FsStat (path_resolve env t)]\<rparr>)"
  using assms
  by (simp add: main_resolved_def Let_def andThen_def existsSync_def statSync_isDirectory_def emit_def)

lemma main_resolved_dir:
  assumes "fs w (path_resolve env t) = Some (Dir names)"
  shows "main_resolved env c p t w =
     run_directory env c p (path_resolve env t)
       (w\<lparr>trace := trace w @ [FsExists (path_resolve env t), FsStat (path_resolve env t)]\<rparr>)"
  using assms
  by (simp add: main_resolved_def Let_def andThen_def existsSync_def statSync_isDirectory_def emit_def)

lemma run_unknown_single:
  assumes "c \<noteq> []" "p \<noteq> []" "t \<noteq> []" and "fs w (path_resolve env t) = Some (File b)"
    and "c \<noteq> ''encrypt''" "c \<noteq> ''decrypt''" "c \<noteq> ''verify''"
  shows "run env (n # s # c # p # t # rest) w = (1,
     w\<lparr>trace := trace w @ [FsExists (path_resolve env t), FsStat (path_resolve env t),
        LogError (UnknownCommand c)]\<rparr>)"
  using assms(5-7)
  by (simp add: run_def main_args [OF assms(1-3)] main_resolved_file [OF assms(4)] run_single_def
      andThen_def console_error_def process_exit_def emit_def)

lemma run_directory_empty:
  assumes "fs w d = Some (Dir names)" and "candidates env d names = []"
  shows "run_directory env c p d w =
     (Inr (Exited 0), w\<lparr>trace := trace w @ [FsReaddir d, Log NoTargets]\<rparr>)"
  using assms
  by (simp add: run_directory_def andThen_def readdirSync_def Let_def console_log_def
      process_exit_def emit_def)

lemma run_no_targets:
  assumes "c \<noteq> []" "p \<noteq> []" "t \<noteq> []" and "fs w (path_resolve env t) = Some (Dir names)"
    and "candidates env (path_resolve env t) names = []"
  shows "run env (n # s # c # p # t # rest) w = (0,
     w\<lparr>trace := trace w @ [FsExists (path_resolve env t), FsStat (path_resolve env t),
        FsReaddir (path_resolve env t), Log NoTargets]\<rparr>)"
  using assms(4,5)
  by (simp add: run_def main_args [OF assms(1-3)] main_resolved_dir [OF assms(4)]
      run_directory_empty)

text \<open>
  C8.  When one of the three tokens is missing (or empty), the run prints the four usage
  lines and ends with status 1, having made no call into the file system.  When the three
  tokens are there and the resolved target does not exist, the run asks only whether the path
  exists, prints the not-found error and ends with status 1.  When the target is a file and
  the command is none of the three, the run asks only whether the path exists and what it is,
  prints the unknown-command error and ends with status 1.  In the three cases the file system
  is left as it was, and no file is read, written or created.
\<close>

theorem usage_errors_touch_nothing:
  "(falsy (nth_opt argv 2) \<or> falsy (nth_opt argv 3) \<or> falsy (nth_opt argv 4) \<longrightarrow>
      run env argv w =
        (1, w\<lparr>trace := trace w @
                 [Log UsageHeader, Log UsageEncrypt, Log UsageDecrypt, Log UsageVerify]\<rparr>))
   \<and> (c \<noteq> [] \<and> p \<noteq> [] \<and> t \<noteq> [] \<and> fs w (path_resolve env t) = None \<longrightarrow>
      run env (n # s # c # p # t # rest) w =
        (1, w\<lparr>trace := trace w @
                 [FsExists (path_resolve env t), LogError (NotFound (path_resolve env t))]\<rparr>))
   \<and> (c \<noteq> [] \<and> p \<noteq> [] \<and> t \<noteq> [] \<and> fs w (path_resolve env t) = Some (File b)
       \<and> c \<noteq> ''encrypt'' \<and> c \<noteq> ''decrypt'' \<and> c \<noteq> ''verify'' \<longrightarrow>
      run env (n # s # c # p # t # rest) w =
        (1, w\<lparr>trace := trace w @
                 [FsExists (path_resolve env t), FsStat (path_resolve env t),
                  LogError (UnknownCommand c)]\<rparr>))"
  by (simp add: run_usage run_not_found run_unknown_single)

theorem usage_errors_touch_nothing_witness:
  "falsy (nth_opt [''node'', ''encrypt-excel.js'', ''encrypt'', ''1234''] 4)
   \<and> run demo_env [''node'', ''encrypt-excel.js'', ''encrypt'', ''1234''] demo_world =
       (1, \<lparr>fs = demo_fs,
            trace = [Log UsageHeader, Log UsageEncrypt, Log UsageDecrypt, Log UsageVerify]\<rparr>)
   \<and> fs demo_world (path_resolve demo_env ''missing.xlsx'') = None
   \<and> run demo_env [''node'', ''encrypt-excel.js'', ''encrypt'', ''1234'', ''missing.xlsx''] demo_world =
       (1, \<lparr>fs = demo_fs,
            trace = [FsExists ''/w/missing.xlsx'', LogError (NotFound ''/w/missing.xlsx'')]\<rparr>)
   \<and> fs demo_world (path_resolve demo_env ''d/a.xlsx'') = Some (File [0, 7, 8])
   \<and> run demo_env [''node'', ''encrypt-excel.js'', ''check'', ''1234'', ''d/a.xlsx''] demo_world =
       (1, \<lparr>fs = demo_fs,
            trace = [FsExists ''/w/d/a.xlsx'', FsStat ''/w/d/a.xlsx'',
                     LogError (UnknownCommand ''check'')]\<rparr>)"
proof -
  have 1: "falsy (nth_opt [''node'', ''encrypt-excel.js'', ''encrypt'', ''1234''] 4)"
    by (simp add: falsy_def nth_opt_def)
  have 2: "fs demo_world (path_resolve demo_env ''missing.xlsx'') = None"
    by (simp add: demo_env_def demo_world_def demo_fs_def)
  have 3: "fs demo_world (path_resolve demo_env ''d/a.xlsx'') = Some (File [0, 7, 8])"
    by (simp add: demo_env_def demo_world_def demo_fs_def)
  have r: "path_resolve demo_env ''missing.xlsx'' = ''/w/missing.xlsx''"
    "path_resolve demo_env ''d/a.xlsx'' = ''/w/d/a.xlsx''"
    by (simp_all add: demo_env_def)
  show ?thesis
    using 1 2 3
      usage_errors_touch_nothing [of "[''node'', ''encrypt-excel.js'', ''encrypt'', ''1234'']"
        demo_env demo_world "''encrypt''" "''1234''" "''missing.xlsx''" "''node''"
        "''encrypt-excel.js''" "[]" "[]"]
      usage_errors_touch_nothing [of "[]" demo_env demo_world "''check''" "''1234''" "''d/a.xlsx''"
        "''node''" "''encrypt-excel.js''" "[]" "[0, 7, 8]"]
    by (simp add: r demo_world_def)
qed

text \<open>
  C9.  In directory mode, when no name of the listing is a candidate, the run lists the
  directory, prints that there is no target file and ends with status 0; it reads and writes
  no file.
\<close>

theorem no_candidates_exit_zero:
  "c \<noteq> [] \<and> p \<noteq> [] \<and> t \<noteq> [] \<and> fs w (path_resolve env t) = Some (Dir names)
     \<and> candidates env (path_resolve env t) names = [] \<longrightarrow>
   run env (n # s # c # p # t # rest) w =
     (0, w\<lparr>trace := trace w @
              [FsExists (path_resolve env t), FsStat (path_resolve env t),
               FsReaddir (path_resolve env t), Log NoTargets]\<rparr>)"
  by (simp add: run_no_targets)

theorem no_candidates_exit_zero_witness:
  "fs demo_world (path_resolve demo_env ''none'') = Some (Dir [''b.txt'', ''~$a.xlsx''])
   \<and> candidates demo_env (path_resolve demo_env ''none'') [''b.txt'', ''~$a.xlsx''] = []
   \<and> run demo_env [''node'', ''encrypt-excel.js'', ''decrypt'', ''1234'', ''none''] demo_world =
       (0, \<lparr>fs = demo_fs,
            trace = [FsExists ''/w/none'', FsStat ''/w/none'', FsReaddir ''/w/none'',
                     Log NoTargets]\<rparr>)"
proof -
  have 1: "fs demo_world (path_resolve demo_env ''none'') = Some (Dir [''b.txt'', ''~$a.xlsx''])"
    by (simp add: demo_env_def demo_world_def demo_fs_def)
  have 2: "candidates demo_env (path_resolve demo_env ''none'') [''b.txt'', ''~$a.xlsx''] = []"
    by (simp add: candidates_def selected_def endsWith_def startsWith_def)
  have r: "path_resolve demo_env ''none'' = ''/w/none''" by (simp add: demo_env_def)
  show ?thesis
    using 1 2 no_candidates_exit_zero [of "''decrypt''" "''1234''" "''none''" demo_world demo_env
        "[''b.txt'', ''~$a.xlsx'']" "''node''" "''encrypt-excel.js''" "[]"]
    by (simp add: r demo_world_def)
qed

text \<open>
  C10.  A run whose password argument is the empty string prints the usage lines and ends
  with status 1 without any call into the file system, and is the same run as the one with
  the arguments cut after the command, that is, with the password missing.
\<close>

theorem empty_password_is_missing_argument:
  "nth_opt argv 3 = Some [] \<longrightarrow>
     run env argv w =
       (1, w\<lparr>trace := trace w @
                [Log UsageHeader, Log UsageEncrypt, Log UsageDecrypt, Log UsageVerify]\<rparr>)
     \<and> run env argv w = run env (take 3 argv) w"
proof
  assume a: "nth_opt argv 3 = Some []"
  then have 1: "falsy (nth_opt argv 2) \<or> falsy (nth_opt argv 3) \<or> falsy (nth_opt argv 4)"
    by (simp add: falsy_def)
  have "nth_opt (take 3 argv) 3 = None" by (simp add: nth_opt_def)
  then have 2: "falsy (nth_opt (take 3 argv) 2) \<or> falsy (nth_opt (take 3 argv) 3)
      \<or> falsy (nth_opt (take 3 argv) 4)"
    by (simp add: falsy_def)
  show "run env argv w =
       (1, w\<lparr>trace := trace w @
                [Log UsageHeader, Log UsageEncrypt, Log UsageDecrypt, Log UsageVerify]\<rparr>)
     \<and> run env argv w = run env (take 3 argv) w"
    by (simp add: run_usage [OF 1] run_usage [OF 2])
qed

theorem empty_password_is_missing_argument_witness:
  "nth_opt [''node'', ''encrypt-excel.js'', ''encrypt'', [], ''d/a.xlsx''] 3 = Some []
   \<and> run demo_env [''node'', ''encrypt-excel.js'', ''encrypt'', [], ''d/a.xlsx''] demo_world =
       (1, \<lparr>fs = demo_fs,
            trace = [Log UsageHeader, Log UsageEncrypt, Log UsageDecrypt, Log UsageVerify]\<rparr>)
   \<and> run demo_env [''node'', ''encrypt-excel.js'', ''encrypt'', [], ''d/a.xlsx''] demo_world =
       run demo_env [''node'', ''encrypt-excel.js'', ''encrypt''] demo_world"
proof -
  have 1: "nth_opt [''node'', ''encrypt-excel.js'', ''encrypt'', [], ''d/a.xlsx''] 3 = Some []"
    by (simp add: nth_opt_def)
  note t = empty_password_is_missing_argument
      [of "[''node'', ''encrypt-excel.js'', ''encrypt'', [], ''d/a.xlsx'']" demo_env demo_world,
       THEN mp, OF 1]
  have 2: "run demo_env [''node'', ''encrypt-excel.js'', ''encrypt'', [], ''d/a.xlsx''] demo_world =
       (1, \<lparr>fs = demo_fs,
            trace = [Log UsageHeader, Log UsageEncrypt, Log UsageDecrypt, Log UsageVerify]\<rparr>)"
    using t [THEN conjunct1] by (simp add: demo_world_def)
  have 3: "run demo_env [''node'', ''encrypt-excel.js'', ''encrypt'', [], ''d/a.xlsx''] demo_world =
       run demo_env [''node'', ''encrypt-excel.js'', ''encrypt''] demo_world"
    using t [THEN conjunct2] by simp
  show ?thesis using 1 2 3 by blast
qed

section \<open>The batch loop\<close>

lemma batch_loop_append:
  "batch_loop env c p (xs @ ys) cnt w =
     (case batch_loop env c p xs cnt w of (cnt', w') \<Rightarrow> batch_loop env c p ys cnt' w')"
  by (induction xs arbitrary: cnt w) (simp_all split: prod.splits)

lemma batch_loop_snoc:
  "batch_loop env c p (xs @ [x]) cnt w =
     (case batch_loop env c p xs cnt w of (cnt', w') \<Rightarrow> try_file env c p x cnt' w')"
  by (simp add: batch_loop_append split: prod.splits)

lemma try_file_fst:
  "fst (try_file env c p f (s, k) w) =
     (if isl (fst (batch_dispatch env c p f w)) then (s, Suc k) else (Suc s, k))"
  by (cases "batch_dispatch env c p f w"; cases "fst (batch_dispatch env c p f w)")
     (simp_all add: try_file_def)

lemma try_file_snd:
  "snd (try_file env c p f cnt w) =
     (case batch_dispatch env c p f w of
        (Inr u, w') \<Rightarrow> w'
      | (Inl e, w') \<Rightarrow> emit (LogError (FileFailed (path_basename env f) e)) w')"
  by (simp add: try_file_def split: prod.splits sum.splits)

lemma world_before_Suc:
  assumes "i < length files"
  shows "world_before env c p files w (Suc i) =
     snd (try_file env c p (files ! i) (fst (batch_loop env c p (take i files) (0, 0) w))
            (world_before env c p files w i))"
  by (simp add: world_before_def take_Suc_conv_app_nth [OF assms] batch_loop_snoc
      split: prod.splits)

lemma batch_loop_prefix_counts:
  assumes "i \<le> length files"
  shows "fst (batch_loop env c p (take i files) (0, 0) w) =
     (i - length (filter (file_fails env c p files w) [0..<i]),
      length (filter (file_fails env c p files w) [0..<i]))
     \<and> length (filter (file_fails env c p files w) [0..<i]) \<le> i"
  using assms
proof (induction i)
  case 0
  then show ?case by simp
next
  case (Suc i)
  then have i: "i < length files" by simp
  let ?F = "length (filter (file_fails env c p files w) [0..<i])"
  obtain cnt w' where l: "batch_loop env c p (take i files) (0, 0) w = (cnt, w')" by fastforce
  have cnt: "cnt = (i - ?F, ?F)" and le: "?F \<le> i" using Suc l by simp_all
  have w': "w' = world_before env c p files w i" using l by (simp add: world_before_def)
  have "fst (batch_loop env c p (take (Suc i) files) (0, 0) w) =
          fst (try_file env c p (files ! i) (i - ?F, ?F) w')"
    by (simp add: take_Suc_conv_app_nth [OF i] batch_loop_snoc l cnt)
  also have "\<dots> = (if file_fails env c p files w i then (i - ?F, Suc ?F) else (Suc (i - ?F), ?F))"
    by (simp add: try_file_fst file_fails_def w')
  finally show ?case using le by (auto simp: Suc_diff_le)
qed

lemma batch_loop_counts:
  "fst (batch_loop env c p files (0, 0) w) =
     (length files - failures env c p files w, failures env c p files w)
   \<and> failures env c p files w \<le> length files"
  using batch_loop_prefix_counts [of "length files" files env c p w]
  by (simp add: failures_def)


lemma run_directory_batch:
  assumes "fs w d = Some (Dir names)" and "candidates env d names \<noteq> []"
  shows "run_directory env c p d w =
     (let files = candidates env d names;
          w0 = emit (Log (BatchStart (length files) (c = ''encrypt''))) (emit (FsReaddir d) w);
          r = batch_loop env c p files (0, 0) w0
      in (Inr Returned, emit (Log (BatchDone (fst (fst r)) (snd (fst r)))) (snd r)))"
  using assms
  by (simp add: run_directory_def andThen_def readdirSync_def Let_def console_log_def
      return_def split: prod.splits)

lemma batch_dispatch_unknown:
  assumes "c \<noteq> ''encrypt''" "c \<noteq> ''decrypt''" "c \<noteq> ''verify''"
  shows "batch_dispatch env c p f w = (Inr (), w)"
  using assms by (simp add: batch_dispatch_def return_def)

lemma batch_loop_unknown:
  assumes "c \<noteq> ''encrypt''" "c \<noteq> ''decrypt''" "c \<noteq> ''verify''"
  shows "batch_loop env c p files (s, k) w = ((s + length files, k), w)"
  by (induction files arbitrary: s) (simp_all add: try_file_def batch_dispatch_unknown [OF assms])

text \<open>
  C3.  The batch loop processes every candidate, in the order of the list: the world in
  which candidate \<open>i\<close> is dispatched is the one left by the candidates before it, whether they
  failed or not, and a candidate whose dispatch throws adds one line on standard error with
  the candidate's base name and the error's message.  With \<open>N\<close> candidates of which \<open>M\<close>
  fail, the counters end at \<open>N - M\<close> successes and \<open>M\<close> failures, and these are the two
  numbers of the closing line that directory mode prints.
\<close>

theorem batch_attempts_all:
  "fst (batch_loop env c p files (0, 0) w) =
     (length files - failures env c p files w, failures env c p files w)
   \<and> failures env c p files w \<le> length files
   \<and> world_before env c p files w 0 = w
   \<and> (\<forall>i<length files.
        world_before env c p files w (Suc i) =
          (case batch_dispatch env c p (files ! i) (world_before env c p files w i) of
             (Inr u, w') \<Rightarrow> w'
           | (Inl e, w') \<Rightarrow> emit (LogError (FileFailed (path_basename env (files ! i)) e)) w'))
   \<and> snd (batch_loop env c p files (0, 0) w) = world_before env c p files w (length files)
   \<and> (fs w d = Some (Dir names) \<and> files = candidates env d names \<and> files \<noteq> [] \<longrightarrow>
        (let w0 = emit (Log (BatchStart (length files) (c = ''encrypt''))) (emit (FsReaddir d) w)
         in run_directory env c p d w =
              (Inr Returned,
               emit (Log (BatchDone (length files - failures env c p files w0)
                                    (failures env c p files w0)))
                 (world_before env c p files w0 (length files)))))"
proof (intro conjI allI impI)
  show "fst (batch_loop env c p files (0, 0) w) =
     (length files - failures env c p files w, failures env c p files w)"
    by (simp add: batch_loop_counts)
  show "failures env c p files w \<le> length files"
    by (simp add: batch_loop_counts)
  show "world_before env c p files w 0 = w"
    by (simp add: world_before_def)
  show "snd (batch_loop env c p files (0, 0) w) = world_before env c p files w (length files)"
    by (simp add: world_before_def)
next
  fix i assume "i < length files"
  then show "world_before env c p files w (Suc i) =
          (case batch_dispatch env c p (files ! i) (world_before env c p files w i) of
             (Inr u, w') \<Rightarrow> w'
           | (Inl e, w') \<Rightarrow> emit (LogError (FileFailed (path_basename env (files ! i)) e)) w')"
    by (simp add: world_before_Suc try_file_snd)
next
  assume a: "fs w d = Some (Dir names) \<and> files = candidates env d names \<and> files \<noteq> []"
  define w0 where "w0 = emit (Log (BatchStart (length files) (c = ''encrypt''))) (emit (FsReaddir d) w)"
  have "run_directory env c p d w =
     (Inr Returned, emit (Log (BatchDone (fst (fst (batch_loop env c p files (0, 0) w0)))
                                         (snd (fst (batch_loop env c p files (0, 0) w0)))))
                      (snd (batch_loop env c p files (0, 0) w0)))"
  proof -
    have 1: "fs w d = Some (Dir names)" and 2: "candidates env d names \<noteq> []"
      and 3: "files = candidates env d names" using a by blast+
    show ?thesis
      unfolding w0_def 3 using run_directory_batch [OF 1 2, of c p] by (simp add: Let_def)
  qed
  then show "let w0 = emit (Log (BatchStart (length files) (c = ''encrypt''))) (emit (FsReaddir d) w)
         in run_directory env c p d w =
              (Inr Returned,
               emit (Log (BatchDone (length files - failures env c p files w0)
                                    (failures env c p files w0)))
                 (world_before env c p files w0 (length files)))"
    by (simp add: Let_def w0_def [symmetric] batch_loop_counts world_before_def)
qed

lemma demo_candidates:
  "candidates demo_env ''/w/d'' [''a.xlsx'', ''~$a.xlsx'', ''b.txt'', ''B.XLSX'', ''e.xlsx'', ''c.xlsx'']
     = [''/w/d/a.xlsx'', ''/w/d/e.xlsx'', ''/w/d/c.xlsx'']"
  by (simp add: candidates_def selected_def endsWith_def startsWith_def demo_env_def)

lemma demo_dir:
  "fs demo_world ''/w/d'' = Some (Dir [''a.xlsx'', ''~$a.xlsx'', ''b.txt'', ''B.XLSX'', ''e.xlsx'', ''c.xlsx''])"
  by (simp add: demo_world_def demo_fs_def)

lemma demo_failures:
  "failures demo_env ''encrypt'' ''1234'' [''/w/d/a.xlsx'', ''/w/d/e.xlsx'', ''/w/d/c.xlsx'']
     (emit (Log (BatchStart 3 True)) (emit (FsReaddir ''/w/d'') demo_world)) = 1"
  by (simp add: failures_def file_fails_def world_before_def io_defs script_defs demo_defs)

theorem batch_attempts_all_witness:
  "fs demo_world ''/w/d''
     = Some (Dir [''a.xlsx'', ''~$a.xlsx'', ''b.txt'', ''B.XLSX'', ''e.xlsx'', ''c.xlsx''])
   \<and> fst (run_directory demo_env ''encrypt'' ''1234'' ''/w/d'' demo_world) = Inr Returned
   \<and> last (trace (snd (run_directory demo_env ''encrypt'' ''1234'' ''/w/d'' demo_world)))
       = Log (BatchDone 2 1)
   \<and> (1::nat) < length [''/w/d/a.xlsx'', ''/w/d/e.xlsx'', ''/w/d/c.xlsx'']
   \<and> fst (batch_dispatch demo_env ''encrypt'' ''1234'' ''/w/d/e.xlsx''
             (world_before demo_env ''encrypt'' ''1234''
                [''/w/d/a.xlsx'', ''/w/d/e.xlsx'', ''/w/d/c.xlsx''] demo_world 1))
       = Inl ProbeUnopenable
   \<and> last (trace (world_before demo_env ''encrypt'' ''1234''
                [''/w/d/a.xlsx'', ''/w/d/e.xlsx'', ''/w/d/c.xlsx''] demo_world (Suc 1)))
       = LogError (FileFailed ''e.xlsx'' ProbeUnopenable)"
proof -
  let ?files = "[''/w/d/a.xlsx'', ''/w/d/e.xlsx'', ''/w/d/c.xlsx'']"
  note t = batch_attempts_all [of demo_env "''encrypt''" "''1234''" ?files demo_world "''/w/d''"
      "[''a.xlsx'', ''~$a.xlsx'', ''b.txt'', ''B.XLSX'', ''e.xlsx'', ''c.xlsx'']"]
  have d: "fst (batch_dispatch demo_env ''encrypt'' ''1234'' ''/w/d/e.xlsx''
             (world_before demo_env ''encrypt'' ''1234'' ?files demo_world 1))
       = Inl ProbeUnopenable"
    by (simp add: world_before_def io_defs script_defs demo_defs)
  have b: "path_basename demo_env ''/w/d/e.xlsx'' = ''e.xlsx''"
    by (simp add: demo_env_def demo_basename_def)
  have n: "(1::nat) < length ?files" by simp
  note s = t [THEN conjunct2, THEN conjunct2, THEN conjunct2, THEN conjunct1, rule_format, OF n]
  have l: "last (trace (world_before demo_env ''encrypt'' ''1234'' ?files demo_world (Suc 1)))
       = LogError (FileFailed ''e.xlsx'' ProbeUnopenable)"
    using d b unfolding s
    by (cases "batch_dispatch demo_env ''encrypt'' ''1234'' ''/w/d/e.xlsx''
             (world_before demo_env ''encrypt'' ''1234'' ?files demo_world 1)") simp
  have h: "fs demo_world ''/w/d''
        = Some (Dir [''a.xlsx'', ''~$a.xlsx'', ''b.txt'', ''B.XLSX'', ''e.xlsx'', ''c.xlsx''])
      \<and> ?files = candidates demo_env ''/w/d''
          [''a.xlsx'', ''~$a.xlsx'', ''b.txt'', ''B.XLSX'', ''e.xlsx'', ''c.xlsx'']
      \<and> ?files \<noteq> []"
    using demo_dir demo_candidates by simp
  note u = t [THEN conjunct2, THEN conjunct2, THEN conjunct2, THEN conjunct2, THEN conjunct2,
      THEN mp, OF h]
  have r: "run_directory demo_env ''encrypt'' ''1234'' ''/w/d'' demo_world =
      (Inr Returned, emit (Log (BatchDone 2 1))
         (world_before demo_env ''encrypt'' ''1234'' ?files
            (emit (Log (BatchStart 3 True)) (emit (FsReaddir ''/w/d'') demo_world)) 3))"
    using u demo_failures by (simp add: Let_def eval_nat_numeral)
  show ?thesis
    using demo_dir d l by (simp add: r)
qed

section \<open>The round-trip check\<close>

lemma quiet_andThen:
  assumes "quiet m" and "\<And>x. quiet (k x)"
  shows "quiet (andThen m k)"
  unfolding quiet_def
proof
  fix w
  show "fs (snd (andThen m k w)) = fs w \<and> fs_calls (snd (andThen m k w)) = fs_calls w"
  proof (cases "m w")
    case (Pair r w')
    then have w': "fs w' = fs w \<and> fs_calls w' = fs_calls w"
      using assms(1) by (metis quiet_def snd_conv)
    show ?thesis
    proof (cases r)
      case (Inl e)
      then show ?thesis using Pair w' by (simp add: andThen_def)
    next
      case (Inr x)
      then have "andThen m k w = k x w'" using Pair by (simp add: andThen_def)
      then show ?thesis using assms(2) [of x] w' by (simp add: quiet_def)
    qed
  qed
qed

lemma quiet_console_log [simp]: "quiet (console_log m)"
  by (simp add: quiet_def console_log_def fs_calls_def)

lemma quiet_fromDataAsync [simp]: "quiet (fromDataAsync env buf pw)"
  by (simp add: quiet_def fromDataAsync_def)

lemma quiet_outputAsync [simp]: "quiet (outputAsync env wb pw)"
  by (simp add: quiet_def outputAsync_def)

lemma quiet_let: "(\<And>x. quiet (f x)) \<Longrightarrow> quiet (Let v f)"
  by simp

lemma verifyFile_shape:
  "\<exists>rest. (\<forall>buf. quiet (rest buf)) \<and>
     verifyFile env p pw =
       andThen (console_log (VerifyStart (path_basename env p))) (\<lambda>_. andThen (readFile p) rest)"
  unfolding verifyFile_def Let_def
  by (rule exI, rule conjI [OF _ refl]) (intro allI quiet_andThen quiet_console_log quiet_fromDataAsync quiet_outputAsync)

lemma readFile_frame:
  "fs (snd (readFile p w)) = fs w \<and> fs_calls (snd (readFile p w)) = fs_calls w @ [FsRead p]"
  by (simp add: readFile_def fs_calls_def split: option.splits node.splits)

lemma verifyFile_frame:
  "fs (snd (verifyFile env p pw w)) = fs w
   \<and> fs_calls (snd (verifyFile env p pw w)) = fs_calls w @ [FsRead p]"
proof -
  obtain rest where q: "\<And>buf. quiet (rest buf)"
    and v: "verifyFile env p pw =
       andThen (console_log (VerifyStart (path_basename env p))) (\<lambda>_. andThen (readFile p) rest)"
    using verifyFile_shape by blast
  let ?w1 = "emit (Log (VerifyStart (path_basename env p))) w"
  have 1: "verifyFile env p pw w = andThen (readFile p) rest ?w1"
    by (simp add: v andThen_def console_log_def)
  have c1: "fs_calls ?w1 = fs_calls w" by (simp add: fs_calls_def)
  obtain r w2 where r: "readFile p ?w1 = (r, w2)" by fastforce
  have w2: "fs w2 = fs w \<and> fs_calls w2 = fs_calls w @ [FsRead p]"
    using readFile_frame [of p ?w1] r c1 by simp
  show ?thesis
  proof (cases r)
    case (Inl e)
    then show ?thesis using 1 r w2 by (simp add: andThen_def)
  next
    case (Inr buf)
    then have "verifyFile env p pw w = rest buf w2" using 1 r by (simp add: andThen_def)
    then show ?thesis using q [of buf] w2 by (simp add: quiet_def)
  qed
qed


lemma verdicts_emit [simp]:
  "verdicts (emit ev w) = (case verdict_of ev of None \<Rightarrow> verdicts w | Some b \<Rightarrow> verdicts w @ [b])"
  by (simp add: verdicts_def map_filter_def emit_def split: option.splits)

text \<open>
  C6.  When \<^verbatim>\<open>verifyFile\<close> returns, the last line it has printed is its verdict, the only
  verdict it has printed, and the verdict is the equality of the hash of the passthrough
  buffer (the original bytes loaded and serialised without a password) and the hash of the
  decrypted buffer (the original bytes loaded, serialised under the password, loaded with the
  password and serialised without one): neither the original bytes, nor the sizes, nor the
  sheet names enter it.  When \<^verbatim>\<open>verifyFile\<close> throws, it has printed no verdict.
\<close>

theorem verifyFile_verdict:
  "(fst (verifyFile env p pw w) = Inr () \<longrightarrow>
      (\<exists>orig wb enc wb2 dec pass.
         fs w p = Some (File orig)
         \<and> parse env None orig = Inr wb
         \<and> serialize env (Some pw) wb = Inr enc
         \<and> parse env (Some pw) enc = Inr wb2
         \<and> serialize env None wb2 = Inr dec
         \<and> serialize env None wb = Inr pass
         \<and> verdicts (snd (verifyFile env p pw w))
             = verdicts w @ [hashBuffer env pass = hashBuffer env dec]
         \<and> last (trace (snd (verifyFile env p pw w)))
             = Log (Verdict (hashBuffer env pass = hashBuffer env dec))))
   \<and> (isl (fst (verifyFile env p pw w)) \<longrightarrow>
        verdicts (snd (verifyFile env p pw w)) = verdicts w)"
  by (simp add: verifyFile_def Let_def andThen_def console_log_def readFile_def fromDataAsync_def
      outputAsync_def split: option.splits node.splits sum.splits)

theorem verifyFile_verdict_witness:
  "fst (verifyFile demo_env ''/w/old.xlsx'' ''1234'' demo_world) = Inr ()
   \<and> fs demo_world ''/w/old.xlsx'' = Some (File [2, 7, 8])
   \<and> verdicts (snd (verifyFile demo_env ''/w/old.xlsx'' ''1234'' demo_world)) = [True]
   \<and> last (trace (snd (verifyFile demo_env ''/w/old.xlsx'' ''1234'' demo_world))) = Log (Verdict True)
   \<and> isl (fst (verifyFile demo_env ''/w/d/e.xlsx'' ''1234'' demo_world))
   \<and> verdicts (snd (verifyFile demo_env ''/w/d/e.xlsx'' ''1234'' demo_world)) = []"
proof -
  have ok: "fst (verifyFile demo_env ''/w/old.xlsx'' ''1234'' demo_world) = Inr ()"
    by (simp add: io_defs script_defs demo_defs)
  have bad: "isl (fst (verifyFile demo_env ''/w/d/e.xlsx'' ''1234'' demo_world))"
    by (simp add: io_defs script_defs demo_defs)
  have v0: "verdicts demo_world = []"
    by (simp add: verdicts_def demo_world_def map_filter_def)
  have f: "fs demo_world ''/w/old.xlsx'' = Some (File [2, 7, 8])"
    by (simp add: demo_world_def demo_fs_def)
  note t1 = verifyFile_verdict [of demo_env "''/w/old.xlsx''" "''1234''" demo_world,
      THEN conjunct1, THEN mp, OF ok]
  note t2 = verifyFile_verdict [of demo_env "''/w/d/e.xlsx''" "''1234''" demo_world,
      THEN conjunct2, THEN mp, OF bad]
  from t1 obtain orig wb enc wb2 dec pass where
    o: "fs demo_world ''/w/old.xlsx'' = Some (File orig)"
    and 1: "parse demo_env None orig = Inr wb"
    and 2: "serialize demo_env (Some ''1234'') wb = Inr enc"
    and 3: "parse demo_env (Some ''1234'') enc = Inr wb2"
    and 4: "serialize demo_env None wb2 = Inr dec"
    and 5: "serialize demo_env None wb = Inr pass"
    and v: "verdicts (snd (verifyFile demo_env ''/w/old.xlsx'' ''1234'' demo_world))
             = verdicts demo_world @ [hashBuffer demo_env pass = hashBuffer demo_env dec]"
    and l: "last (trace (snd (verifyFile demo_env ''/w/old.xlsx'' ''1234'' demo_world)))
             = Log (Verdict (hashBuffer demo_env pass = hashBuffer demo_env dec))"
    by blast
  have "orig = [2, 7, 8]" using o f by simp
  then have "wb = [7, 8]" using 1 by (simp add: demo_env_def demo_parse_def)
  then have "enc = [1, 4, 7, 8]" and p: "pass = [0, 7, 8]" using 2 5
    by (auto simp: demo_env_def demo_serialize_def demo_key_def)
  then have "wb2 = [7, 8]" using 3 by (simp add: demo_env_def demo_parse_def demo_key_def)
  then have "dec = [0, 7, 8]" using 4 by (auto simp: demo_env_def demo_serialize_def)
  then show ?thesis using ok bad f v l t2 v0 p by simp
qed

lemma writes_fs_calls: "writes w = filter is_write (fs_calls w)"
proof -
  have "is_fs_call ev \<and> is_write ev \<longleftrightarrow> is_write ev" for ev
    by (cases ev) simp_all
  then show ?thesis by (simp add: writes_def fs_calls_def)
qed


text \<open>
  C7.  Whatever the path and the password, and whether it returns or throws, \<^verbatim>\<open>verifyFile\<close>
  leaves the file system as it was: its one call into the file system is the read of the target
  file, and it writes nothing.
\<close>

theorem verifyFile_no_mutation:
  "fs (snd (verifyFile env p pw w)) = fs w
   \<and> fs_calls (snd (verifyFile env p pw w)) = fs_calls w @ [FsRead p]
   \<and> writes (snd (verifyFile env p pw w)) = writes w"
  by (simp add: verifyFile_frame writes_fs_calls)

section \<open>Directory mode and the command\<close>

text \<open>
  C4.  In directory mode no command string is rejected.  The dispatch calls
  \<^verbatim>\<open>verifyFile\<close> for the command \<^verbatim>\<open>verify\<close>; for a command that is none of \<^verbatim>\<open>encrypt\<close>,
  \<^verbatim>\<open>decrypt\<close>, \<^verbatim>\<open>verify\<close> it calls no operation and leaves the world as it is, every
  candidate is counted a success, and the run prints the opening and the closing line and
  ends with status 0.
\<close>

theorem unknown_command_directory:
  "batch_dispatch env ''verify'' p f = verifyFile env f p
   \<and> (c \<noteq> ''encrypt'' \<and> c \<noteq> ''decrypt'' \<and> c \<noteq> ''verify'' \<longrightarrow>
        batch_dispatch env c p f w = (Inr (), w)
        \<and> batch_loop env c p files (0, 0) w = ((length files, 0), w)
        \<and> (c \<noteq> [] \<and> p \<noteq> [] \<and> t \<noteq> []
            \<and> fs w (path_resolve env t) = Some (Dir names)
            \<and> candidates env (path_resolve env t) names \<noteq> [] \<longrightarrow>
            run env (n # s # c # p # t # rest) w =
              (0, w\<lparr>trace := trace w @
                   [FsExists (path_resolve env t), FsStat (path_resolve env t),
                    FsReaddir (path_resolve env t),
                    Log (BatchStart (length (candidates env (path_resolve env t) names)) False),
                    Log (BatchDone (length (candidates env (path_resolve env t) names)) 0)]\<rparr>)))"
proof (intro conjI impI)
  show "batch_dispatch env ''verify'' p f = verifyFile env f p"
    by (rule ext) (simp add: batch_dispatch_def)
next
  assume u: "c \<noteq> ''encrypt'' \<and> c \<noteq> ''decrypt'' \<and> c \<noteq> ''verify''"
  then show "batch_dispatch env c p f w = (Inr (), w)"
    by (simp add: batch_dispatch_unknown)
  from u show "batch_loop env c p files (0, 0) w = ((length files, 0), w)"
    by (simp add: batch_loop_unknown)
  assume d: "c \<noteq> [] \<and> p \<noteq> [] \<and> t \<noteq> []
            \<and> fs w (path_resolve env t) = Some (Dir names)
            \<and> candidates env (path_resolve env t) names \<noteq> []"
  let ?d = "path_resolve env t"
  let ?w = "w\<lparr>trace := trace w @ [FsExists ?d, FsStat ?d]\<rparr>"
  have m: "main env (n # s # c # p # t # rest) w = run_directory env c p ?d ?w"
    using d by (simp add: main_args main_resolved_dir)
  have "fs ?w ?d = Some (Dir names)" using d by simp
  from run_directory_batch [OF this, of env c p] d u
  show "run env (n # s # c # p # t # rest) w =
              (0, w\<lparr>trace := trace w @
                   [FsExists ?d, FsStat ?d, FsReaddir ?d,
                    Log (BatchStart (length (candidates env ?d names)) False),
                    Log (BatchDone (length (candidates env ?d names)) 0)]\<rparr>)"
    by (simp add: run_def m Let_def batch_loop_unknown emit_def)
qed

theorem unknown_command_directory_witness:
  "''check'' \<noteq> ''encrypt'' \<and> ''check'' \<noteq> ''decrypt'' \<and> ''check'' \<noteq> ''verify''
   \<and> fs demo_world (path_resolve demo_env ''d'')
       = Some (Dir [''a.xlsx'', ''~$a.xlsx'', ''b.txt'', ''B.XLSX'', ''e.xlsx'', ''c.xlsx''])
   \<and> run demo_env [''node'', ''encrypt-excel.js'', ''check'', ''1234'', ''d''] demo_world =
       (0, \<lparr>fs = demo_fs,
            trace = [FsExists ''/w/d'', FsStat ''/w/d'', FsReaddir ''/w/d'',
                     Log (BatchStart 3 False), Log (BatchDone 3 0)]\<rparr>)"
proof -
  let ?names = "[''a.xlsx'', ''~$a.xlsx'', ''b.txt'', ''B.XLSX'', ''e.xlsx'', ''c.xlsx'']"
  have c: "''check'' \<noteq> ''encrypt'' \<and> ''check'' \<noteq> ''decrypt'' \<and> ''check'' \<noteq> ''verify''"
    by simp
  have r: "path_resolve demo_env ''d'' = ''/w/d''" by (simp add: demo_env_def)
  have d: "fs demo_world (path_resolve demo_env ''d'') = Some (Dir ?names)"
    by (simp add: r demo_world_def demo_fs_def)
  have k: "candidates demo_env (path_resolve demo_env ''d'') ?names
             = [''/w/d/a.xlsx'', ''/w/d/e.xlsx'', ''/w/d/c.xlsx'']"
    by (simp add: r candidates_def selected_def endsWith_def startsWith_def demo_env_def)
  have h: "''check'' \<noteq> [] \<and> ''1234'' \<noteq> [] \<and> ''d'' \<noteq> []
      \<and> fs demo_world (path_resolve demo_env ''d'') = Some (Dir ?names)
      \<and> candidates demo_env (path_resolve demo_env ''d'') ?names \<noteq> []"
    using d k by simp
  note t = unknown_command_directory [of demo_env "''1234''" _ "''check''" demo_world _ "''d''" ?names
      "''node''" "''encrypt-excel.js''" "[]",
      THEN conjunct2, THEN mp, OF c, THEN conjunct2, THEN conjunct2, THEN mp, OF h]
  have k': "candidates demo_env ''/w/d'' ?names
             = [''/w/d/a.xlsx'', ''/w/d/e.xlsx'', ''/w/d/c.xlsx'']"
    using k by (simp add: r)
  show ?thesis using t d by (simp add: k' r demo_world_def)
qed

theorem unknown_command_not_verify_counterexample:
  "batch_dispatch demo_env ''check'' ''1234'' ''/w/d/a.xlsx'' demo_world = (Inr (), demo_world)
   \<and> fs_calls (snd (verifyFile demo_env ''/w/d/a.xlsx'' ''1234'' demo_world)) = [FsRead ''/w/d/a.xlsx'']
   \<and> fs_calls (snd (batch_dispatch demo_env ''check'' ''1234'' ''/w/d/a.xlsx'' demo_world)) = []
   \<and> batch_dispatch demo_env ''check'' ''1234'' ''/w/d/a.xlsx'' demo_world
       \<noteq> verifyFile demo_env ''/w/d/a.xlsx'' ''1234'' demo_world"
proof -
  have 1: "batch_dispatch demo_env ''check'' ''1234'' ''/w/d/a.xlsx'' demo_world = (Inr (), demo_world)"
    by (simp add: batch_dispatch_def return_def)
  have 0: "fs_calls demo_world = []"
    by (simp add: fs_calls_def demo_world_def)
  have 2: "fs_calls (snd (verifyFile demo_env ''/w/d/a.xlsx'' ''1234'' demo_world)) = [FsRead ''/w/d/a.xlsx'']"
    using verifyFile_frame [of demo_env "''/w/d/a.xlsx''" "''1234''" demo_world] 0 by simp
  have 3: "batch_dispatch demo_env ''check'' ''1234'' ''/w/d/a.xlsx'' demo_world
       \<noteq> verifyFile demo_env ''/w/d/a.xlsx'' ''1234'' demo_world"
  proof
    assume "batch_dispatch demo_env ''check'' ''1234'' ''/w/d/a.xlsx'' demo_world
       = verifyFile demo_env ''/w/d/a.xlsx'' ''1234'' demo_world"
    then have "verifyFile demo_env ''/w/d/a.xlsx'' ''1234'' demo_world = (Inr (), demo_world)"
      using 1 by simp
    then have "fs_calls (snd (verifyFile demo_env ''/w/d/a.xlsx'' ''1234'' demo_world)) = fs_calls demo_world"
      by simp
    then show False using 2 0 by simp
  qed
  show ?thesis using 1 2 3 0 by simp
qed

end
